theory Spec2Isabelle
  imports Main "HOL-Library.Word"
begin

section \<open>A byte-level BPE tokenizer: shallow embedding of base.py and basic.py\<close>

text \<open>
  Python values are modelled as follows. A \<open>str\<close> is the list of its code points
  (\<open>pystr\<close>), \<open>bytes\<close> is a list of 8-bit words, an \<open>int\<close> is an \<open>int\<close>. A \<open>dict\<close>
  is an association list in insertion order: assigning to a key that is present
  replaces the value where the key stands, assigning to a new key appends it (that
  is what Python's dict does, and the order is observable through \<open>save\<close>, \<open>min\<close>
  and \<open>max\<close>). An exception is a value of \<open>exn\<close>; a function that may raise
  returns \<open>exn + 'a\<close> with \<open>Inl\<close> for the exception.
\<close>

type_synonym pystr = "nat list"
type_synonym byte = "8 word"
type_synonym bytes = "byte list"
type_synonym pair = "int \<times> int"
type_synonym ('k, 'v) dict = "('k \<times> 'v) list"

datatype exn = AssertionError | TypeError | ValueError | KeyError | UnicodeEncodeError

text \<open>A string literal of the source, as code points.\<close>

definition py :: "string \<Rightarrow> pystr" where
  "py s = map of_char s"

fun dict_get :: "('k, 'v) dict \<Rightarrow> 'k \<Rightarrow> 'v option" where
  "dict_get [] k = None"
| "dict_get ((k', v) # d) k = (if k' = k then Some v else dict_get d k)"

fun dict_set :: "('k, 'v) dict \<Rightarrow> 'k \<Rightarrow> 'v \<Rightarrow> ('k, 'v) dict" where
  "dict_set [] k v = [(k, v)]"
| "dict_set ((k', v') # d) k v = (if k' = k then (k, v) # d else (k', v') # dict_set d k v)"

subsection \<open>base.py: \<open>get_stats\<close>\<close>

text \<open>
  \<open>counts = {} if counts is None else counts\<close>, then one increment for every
  adjacent pair \<open>zip(ids, ids[1:])\<close>, in order.
\<close>

definition get_stats :: "int list \<Rightarrow> (pair, int) dict option \<Rightarrow> (pair, int) dict" where
  "get_stats ids counts =
     foldl (\<lambda>c p. dict_set c p ((case dict_get c p of None \<Rightarrow> 0 | Some n \<Rightarrow> n) + 1))
           (case counts of None \<Rightarrow> [] | Some c \<Rightarrow> c)
           (zip ids (tl ids))"

subsection \<open>base.py: \<open>merge\<close>\<close>

text \<open>
  The \<open>while i < len(ids)\<close> loop with its cursor \<open>i\<close> and the output list \<open>newids\<close>.
  The test \<open>i < len(ids) - 1\<close> guards the read of \<open>ids[i + 1]\<close>.
\<close>

function merge_loop :: "int list \<Rightarrow> pair \<Rightarrow> int \<Rightarrow> nat \<Rightarrow> int list \<Rightarrow> int list" where
  "merge_loop ids pair idx i newids =
     (if i < length ids then
        (if ids ! i = fst pair \<and> i < length ids - 1 \<and> ids ! (i + 1) = snd pair
         then merge_loop ids pair idx (i + 2) (newids @ [idx])
         else merge_loop ids pair idx (i + 1) (newids @ [ids ! i]))
      else newids)"
  by pat_completeness auto
termination
  by (relation "measure (\<lambda>(ids, pair, idx, i, newids). length ids - i)") auto

declare merge_loop.simps [simp del]

definition merge :: "int list \<Rightarrow> pair \<Rightarrow> int \<Rightarrow> int list" where
  "merge ids pair idx = merge_loop ids pair idx 0 []"

text \<open>
  The scan as the specification words it: at each position, if the current and the
  next element are the pair, emit the replacement and advance by two; otherwise emit
  the current element and advance by one.
\<close>

fun spec_merge_scan :: "int list \<Rightarrow> pair \<Rightarrow> int \<Rightarrow> int list" where
  "spec_merge_scan (x # y # xs) P R =
     (if x = fst P \<and> y = snd P then R # spec_merge_scan xs P R
      else x # spec_merge_scan (y # xs) P R)"
| "spec_merge_scan [x] P R = [x]"
| "spec_merge_scan [] P R = []"


subsection \<open>Calling \<open>get_stats\<close>\<close>

text \<open>
  \<open>def get_stats(ids: list, counts: dict | None) -> dict\<close> declares both parameters
  without a default value (the annotation \<open>dict | None\<close> is not a default). Python
  binds the arguments before it runs the body, and a call that leaves a parameter
  without a value raises TypeError. \<open>Missing\<close> stands for a parameter the call site
  does not pass.
\<close>

datatype 'a arg = Missing | Passed 'a

definition call_get_stats :: "int list \<Rightarrow> (pair, int) dict option arg \<Rightarrow> exn + (pair, int) dict" where
  "call_get_stats ids counts =
     (case counts of Missing \<Rightarrow> Inl TypeError | Passed c \<Rightarrow> Inr (get_stats ids c))"

subsection \<open>The builtins \<open>max\<close> and \<open>min\<close> with a key\<close>

text \<open>
  Both raise ValueError on an empty iterable, go through it in order and keep the
  first element whose key is extremal: the candidate is replaced only by an element
  whose key is strictly greater (strictly smaller). The key of \<open>min\<close> in \<open>encode\<close> is
  \<open>self.merges.get(p, float("inf"))\<close>: an int, or infinity, which is above every int.
\<close>

datatype rank = Rank int | Infinity

fun rank_less :: "rank \<Rightarrow> rank \<Rightarrow> bool" where
  "rank_less (Rank a) (Rank b) = (a < b)"
| "rank_less (Rank a) Infinity = True"
| "rank_less Infinity r = False"

fun py_max_loop :: "('k \<Rightarrow> int) \<Rightarrow> 'k \<Rightarrow> 'k list \<Rightarrow> 'k" where
  "py_max_loop key best [] = best"
| "py_max_loop key best (x # xs) = py_max_loop key (if key best < key x then x else best) xs"

definition py_max :: "'k list \<Rightarrow> ('k \<Rightarrow> int) \<Rightarrow> exn + 'k" where
  "py_max xs key = (case xs of [] \<Rightarrow> Inl ValueError | x # r \<Rightarrow> Inr (py_max_loop key x r))"

fun py_min_loop :: "('k \<Rightarrow> rank) \<Rightarrow> 'k \<Rightarrow> 'k list \<Rightarrow> 'k" where
  "py_min_loop key best [] = best"
| "py_min_loop key best (x # xs) = py_min_loop key (if rank_less (key x) (key best) then x else best) xs"

definition py_min :: "'k list \<Rightarrow> ('k \<Rightarrow> rank) \<Rightarrow> exn + 'k" where
  "py_min xs key = (case xs of [] \<Rightarrow> Inl ValueError | x # r \<Rightarrow> Inr (py_min_loop key x r))"

subsection \<open>UTF-8\<close>

text \<open>
  \<open>str.encode("utf-8")\<close> is strict: a surrogate code point (D800 to DFFF) raises
  UnicodeEncodeError. The code points of a Python \<open>str\<close> are below 110000 (hex).
\<close>

definition utf8_char :: "nat \<Rightarrow> exn + nat list" where
  "utf8_char c =
     (if c < 0x80 then Inr [c]
      else if c < 0x800 then Inr [0xC0 + c div 64, 0x80 + c mod 64]
      else if 0xD800 \<le> c \<and> c < 0xE000 then Inl UnicodeEncodeError
      else if c < 0x10000 then
        Inr [0xE0 + c div 4096, 0x80 + (c div 64) mod 64, 0x80 + c mod 64]
      else
        Inr [0xF0 + c div 262144, 0x80 + (c div 4096) mod 64, 0x80 + (c div 64) mod 64,
             0x80 + c mod 64])"

fun utf8_encode :: "pystr \<Rightarrow> exn + bytes" where
  "utf8_encode [] = Inr []"
| "utf8_encode (c # cs) =
     (case utf8_char c of
        Inl e \<Rightarrow> Inl e
      | Inr bs \<Rightarrow> (case utf8_encode cs of Inl e \<Rightarrow> Inl e | Inr r \<Rightarrow> Inr (map of_nat bs @ r)))"

text \<open>
  \<open>bytes.decode("utf-8", errors="replace")\<close>, as CPython decodes: each ill-formed
  sequence is replaced by one U+FFFD and decoding resumes behind it. An invalid
  start byte and a start byte whose first continuation byte is wrong cost one byte;
  a wrong second (third) continuation byte costs the two (three) bytes before it; a
  sequence cut off by the end of the input is replaced as a whole. The decoder is
  given the byte values as numbers.
\<close>

definition is_cont :: "nat \<Rightarrow> bool" where
  "is_cont b \<longleftrightarrow> 0x80 \<le> b \<and> b < 0xC0"

definition REPL :: nat where
  "REPL = 0xFFFD"

fun utf8_dec :: "nat list \<Rightarrow> nat list" where
  "utf8_dec [] = []"
| "utf8_dec (b # bs) =
     (if b < 0x80 then b # utf8_dec bs
      else if b < 0xC2 then REPL # utf8_dec bs
      else if b < 0xE0 then
        (case bs of
           [] \<Rightarrow> [REPL]
         | b2 # r2 \<Rightarrow>
             if is_cont b2 then ((b - 0xC0) * 64 + (b2 - 0x80)) # utf8_dec r2
             else REPL # utf8_dec bs)
      else if b < 0xF0 then
        (case bs of
           [] \<Rightarrow> [REPL]
         | b2 # r2 \<Rightarrow>
             if \<not> is_cont b2 \<or> (b = 0xE0 \<and> b2 < 0xA0) \<or> (b = 0xED \<and> 0xA0 \<le> b2)
             then REPL # utf8_dec bs
             else
               (case r2 of
                  [] \<Rightarrow> [REPL]
                | b3 # r3 \<Rightarrow>
                    if is_cont b3
                    then ((b - 0xE0) * 4096 + (b2 - 0x80) * 64 + (b3 - 0x80)) # utf8_dec r3
                    else REPL # utf8_dec r2))
      else if b < 0xF5 then
        (case bs of
           [] \<Rightarrow> [REPL]
         | b2 # r2 \<Rightarrow>
             if \<not> is_cont b2 \<or> (b = 0xF0 \<and> b2 < 0x90) \<or> (b = 0xF4 \<and> 0x90 \<le> b2)
             then REPL # utf8_dec bs
             else
               (case r2 of
                  [] \<Rightarrow> [REPL]
                | b3 # r3 \<Rightarrow>
                    if \<not> is_cont b3 then REPL # utf8_dec r2
                    else
                      (case r3 of
                         [] \<Rightarrow> [REPL]
                       | b4 # r4 \<Rightarrow>
                           if is_cont b4
                           then ((b - 0xF0) * 262144 + (b2 - 0x80) * 4096 + (b3 - 0x80) * 64
                                 + (b4 - 0x80)) # utf8_dec r4
                           else REPL # utf8_dec r3)))
      else REPL # utf8_dec bs)"

declare utf8_dec.simps(2) [simp del]

definition utf8_decode_replace :: "bytes \<Rightarrow> pystr" where
  "utf8_decode_replace bs = utf8_dec (map unat bs)"

subsection \<open>base.py: the class \<open>Tokenizer\<close>\<close>

text \<open>
  The instance attributes. The order of the entries of \<open>vocab\<close> is read only by the
  human-readable listing that \<open>save\<close> writes, so \<open>vocab\<close> is a map; \<open>merges\<close> and
  \<open>special_tokens\<close> are read in order.
\<close>

record tokenizer =
  merges :: "(pair, int) dict"
  patterns :: pystr
  special_tokens :: "(pystr, int) dict"
  vocab :: "int \<rightharpoonup> bytes"
  VERSION :: pystr

text \<open>\<open>{idx: bytes([idx]) for idx in range(256)}\<close>\<close>

definition base_vocab :: "int \<rightharpoonup> bytes" where
  "base_vocab = (\<lambda>idx. if 0 \<le> idx \<and> idx < 256 then Some [word_of_int idx] else None)"

text \<open>
  \<open>_build_vocab\<close>: the two loops over \<open>self.merges.items()\<close> and
  \<open>self.special_tokens.items()\<close>. \<open>vocab[p0]\<close> and \<open>vocab[p1]\<close> raise KeyError when
  the id is not in the table yet.
\<close>

fun vocab_merges :: "(pair, int) dict \<Rightarrow> (int \<rightharpoonup> bytes) \<Rightarrow> exn + (int \<rightharpoonup> bytes)" where
  "vocab_merges [] v = Inr v"
| "vocab_merges (((p0, p1), idx) # ms) v =
     (case v p0 of
        None \<Rightarrow> Inl KeyError
      | Some b0 \<Rightarrow>
          (case v p1 of None \<Rightarrow> Inl KeyError | Some b1 \<Rightarrow> vocab_merges ms (v(idx \<mapsto> b0 @ b1))))"

fun vocab_specials :: "(pystr, int) dict \<Rightarrow> (int \<rightharpoonup> bytes) \<Rightarrow> exn + (int \<rightharpoonup> bytes)" where
  "vocab_specials [] v = Inr v"
| "vocab_specials ((special, idx) # sp) v =
     (case utf8_encode special of Inl e \<Rightarrow> Inl e | Inr b \<Rightarrow> vocab_specials sp (v(idx \<mapsto> b)))"

definition build_vocab :: "tokenizer \<Rightarrow> exn + (int \<rightharpoonup> bytes)" where
  "build_vocab self =
     (case vocab_merges (merges self) base_vocab of
        Inl e \<Rightarrow> Inl e
      | Inr v \<Rightarrow> vocab_specials (special_tokens self) v)"

text \<open>
  \<open>__init__\<close>: no merges, no pattern, no special tokens; with these \<open>_build_vocab\<close>
  returns the 256 single bytes.
\<close>

definition tokenizer_init :: tokenizer where
  "tokenizer_init =
     \<lparr> merges = [], patterns = [], special_tokens = [], vocab = base_vocab,
       VERSION = py ''bpe v1.0'' \<rparr>"

subsection \<open>basic.py: \<open>train\<close>, \<open>decode\<close>, \<open>encode\<close>\<close>

text \<open>
  The body of \<open>for i in range(num_merges)\<close>, on the local variables \<open>ids\<close>,
  \<open>merges\<close> and \<open>vocab\<close> (primed, since the attributes have these names). The call is \<open>get_stats(ids)\<close>: one argument.
  \<open>max(stats, key=stats.get)\<close> goes through the keys of \<open>stats\<close>. The \<open>print\<close>
  under \<open>verbose\<close> is left out.
\<close>

fun train_loop ::
  "int list \<Rightarrow> int list \<times> (pair, int) dict \<times> (int \<rightharpoonup> bytes)
   \<Rightarrow> exn + int list \<times> (pair, int) dict \<times> (int \<rightharpoonup> bytes)" where
  "train_loop [] locals = Inr locals"
| "train_loop (i # rng) (ids, merges', vocab') =
     (case call_get_stats ids Missing of
        Inl e \<Rightarrow> Inl e
      | Inr stats \<Rightarrow>
          (case py_max (map fst stats) (\<lambda>p. case dict_get stats p of Some n \<Rightarrow> n | None \<Rightarrow> 0) of
             Inl e \<Rightarrow> Inl e
           | Inr pair \<Rightarrow>
               (let idx = 256 + i in
                case vocab' (fst pair) of
                  None \<Rightarrow> Inl KeyError
                | Some b0 \<Rightarrow>
                    (case vocab' (snd pair) of
                       None \<Rightarrow> Inl KeyError
                     | Some b1 \<Rightarrow>
                         train_loop rng
                           (merge ids pair idx, dict_set merges' pair idx,
                            vocab'(idx \<mapsto> b0 @ b1))))))"

text \<open>
  \<open>train\<close> returns the outcome and the tokenizer as the call leaves it: the two
  attributes are assigned only after the loop. \<open>range(num_merges)\<close> is the list of
  the ints from 0 up to \<open>num_merges - 1\<close>.
\<close>

definition train :: "tokenizer \<Rightarrow> pystr \<Rightarrow> int \<Rightarrow> (exn + unit) \<times> tokenizer" where
  "train self text vocab_size =
     (if \<not> 256 \<le> vocab_size then (Inl AssertionError, self)
      else
        let num_merges = vocab_size - 256 in
        case utf8_encode text of
          Inl e \<Rightarrow> (Inl e, self)
        | Inr text_bytes \<Rightarrow>
            (case train_loop (map int [0 ..< nat num_merges])
                    (map uint text_bytes, [], base_vocab) of
               Inl e \<Rightarrow> (Inl e, self)
             | Inr (ids, merges', vocab') \<Rightarrow>
                 (Inr (), self\<lparr> merges := merges', vocab := vocab' \<rparr>)))"

text \<open>
  The same loop and the same \<open>train\<close> with the call of \<open>get_stats\<close> as a parameter
  \<open>stats_call\<close>, which gives the outcome of the call for the current \<open>ids\<close>: \<open>train\<close>
  is \<open>train_with\<close> at the call of the source, one argument. \<open>returns_pair_counts\<close>
  says of a call that, whenever it returns, it returns what the body of \<open>get_stats\<close>
  computes for \<open>counts = None\<close>; the call of the source, which never returns, is one.
\<close>

fun train_loop_with ::
  "(int list \<Rightarrow> exn + (pair, int) dict) \<Rightarrow> int list
   \<Rightarrow> int list \<times> (pair, int) dict \<times> (int \<rightharpoonup> bytes)
   \<Rightarrow> exn + int list \<times> (pair, int) dict \<times> (int \<rightharpoonup> bytes)" where
  "train_loop_with stats_call [] locals = Inr locals"
| "train_loop_with stats_call (i # rng) (ids, merges', vocab') =
     (case stats_call ids of
        Inl e \<Rightarrow> Inl e
      | Inr stats \<Rightarrow>
          (case py_max (map fst stats) (\<lambda>p. case dict_get stats p of Some n \<Rightarrow> n | None \<Rightarrow> 0) of
             Inl e \<Rightarrow> Inl e
           | Inr pair \<Rightarrow>
               (let idx = 256 + i in
                case vocab' (fst pair) of
                  None \<Rightarrow> Inl KeyError
                | Some b0 \<Rightarrow>
                    (case vocab' (snd pair) of
                       None \<Rightarrow> Inl KeyError
                     | Some b1 \<Rightarrow>
                         train_loop_with stats_call rng
                           (merge ids pair idx, dict_set merges' pair idx,
                            vocab'(idx \<mapsto> b0 @ b1))))))"

definition train_with ::
  "(int list \<Rightarrow> exn + (pair, int) dict) \<Rightarrow> tokenizer \<Rightarrow> pystr \<Rightarrow> int
   \<Rightarrow> (exn + unit) \<times> tokenizer" where
  "train_with stats_call self text vocab_size =
     (if \<not> 256 \<le> vocab_size then (Inl AssertionError, self)
      else
        let num_merges = vocab_size - 256 in
        case utf8_encode text of
          Inl e \<Rightarrow> (Inl e, self)
        | Inr text_bytes \<Rightarrow>
            (case train_loop_with stats_call (map int [0 ..< nat num_merges])
                    (map uint text_bytes, [], base_vocab) of
               Inl e \<Rightarrow> (Inl e, self)
             | Inr (ids, merges', vocab') \<Rightarrow>
                 (Inr (), self\<lparr> merges := merges', vocab := vocab' \<rparr>)))"

definition returns_pair_counts :: "(int list \<Rightarrow> exn + (pair, int) dict) \<Rightarrow> bool" where
  "returns_pair_counts stats_call \<longleftrightarrow>
     (\<forall>ids stats. stats_call ids = Inr stats \<longrightarrow> stats = get_stats ids None)"

text \<open>\<open>[self.vocab[idx] for idx in ids]\<close>: KeyError at the first id that is not a key.\<close>

fun vocab_lookup :: "(int \<rightharpoonup> bytes) \<Rightarrow> int list \<Rightarrow> exn + bytes list" where
  "vocab_lookup v [] = Inr []"
| "vocab_lookup v (idx # ids) =
     (case v idx of
        None \<Rightarrow> Inl KeyError
      | Some b \<Rightarrow> (case vocab_lookup v ids of Inl e \<Rightarrow> Inl e | Inr bs \<Rightarrow> Inr (b # bs)))"

definition decode :: "tokenizer \<Rightarrow> int list \<Rightarrow> exn + pystr" where
  "decode self ids =
     (case vocab_lookup (vocab self) ids of
        Inl e \<Rightarrow> Inl e
      | Inr toks \<Rightarrow> Inr (utf8_decode_replace (concat toks)))"

text \<open>
  The loop \<open>while len(ids) >= 2\<close> of \<open>encode\<close>. The call is \<open>get_stats(ids)\<close> again;
  the key of \<open>min\<close> is the id of the pair in \<open>self.merges\<close>, or infinity.
\<close>

function encode_loop :: "(pair, int) dict \<Rightarrow> int list \<Rightarrow> exn + int list" where
  "encode_loop merges' ids =
     (if 2 \<le> length ids then
        (case call_get_stats ids Missing of
           Inl e \<Rightarrow> Inl e
         | Inr stats \<Rightarrow>
             (case py_min (map fst stats)
                     (\<lambda>p. case dict_get merges' p of Some r \<Rightarrow> Rank r | None \<Rightarrow> Infinity) of
                Inl e \<Rightarrow> Inl e
              | Inr pair \<Rightarrow>
                  (case dict_get merges' pair of
                     None \<Rightarrow> Inr ids
                   | Some idx \<Rightarrow> encode_loop merges' (merge ids pair idx))))
      else Inr ids)"
  by pat_completeness auto
termination
  by (relation "measure (\<lambda>(merges', ids). length ids)") (auto simp: call_get_stats_def)

declare encode_loop.simps [simp del]

definition encode :: "tokenizer \<Rightarrow> pystr \<Rightarrow> exn + int list" where
  "encode self text =
     (case utf8_encode text of
        Inl e \<Rightarrow> Inl e
      | Inr text_bytes \<Rightarrow> encode_loop (merges self) (map uint text_bytes))"

subsection \<open>Text: \<open>str.strip\<close>, \<open>str.split\<close>, \<open>int\<close>, \<open>str\<close>, reading lines\<close>

text \<open>The characters for which \<open>str.isspace\<close> holds; \<open>strip()\<close> and \<open>split()\<close> use them.\<close>

definition is_space :: "nat \<Rightarrow> bool" where
  "is_space c \<longleftrightarrow>
     (9 \<le> c \<and> c \<le> 13) \<or> (28 \<le> c \<and> c \<le> 32) \<or> c = 0x85 \<or> c = 0xA0 \<or> c = 0x1680
     \<or> (0x2000 \<le> c \<and> c \<le> 0x200A) \<or> c = 0x2028 \<or> c = 0x2029 \<or> c = 0x202F
     \<or> c = 0x205F \<or> c = 0x3000"

definition strip :: "pystr \<Rightarrow> pystr" where
  "strip s = rev (dropWhile is_space (rev (dropWhile is_space s)))"

text \<open>\<open>s.split()\<close>: the maximal runs of characters that are not whitespace.\<close>

fun split_acc :: "pystr \<Rightarrow> pystr \<Rightarrow> pystr list" where
  "split_acc cur [] = (if cur = [] then [] else [cur])"
| "split_acc cur (c # cs) =
     (if is_space c then (if cur = [] then split_acc [] cs else cur # split_acc [] cs)
      else split_acc (cur @ [c]) cs)"

definition split :: "pystr \<Rightarrow> pystr list" where
  "split s = split_acc [] s"

text \<open>
  \<open>int(s)\<close>, as CPython 3.11 reads a \<open>str\<close>: whitespace around the number is skipped
  (the ASCII control characters 28 to 31 are whitespace for \<open>strip\<close> but not for
  \<open>int\<close>), then an optional sign, then decimal digits, where a single underscore may
  stand between two digits. A decimal digit is any character of the Unicode category
  Nd: the digits of each script are ten consecutive code points, for the values 0 to
  9, and \<open>decimal_starts\<close> lists the code point of the zero of each script (Unicode
  14.0, the version of CPython 3.11). More than 4300 digits
  (\<open>sys.int_info.default_max_str_digits\<close>) are refused. Every failure is a ValueError.
\<close>

definition is_int_space :: "nat \<Rightarrow> bool" where
  "is_int_space c \<longleftrightarrow> is_space c \<and> \<not> (28 \<le> c \<and> c \<le> 31)"

definition decimal_starts :: "nat list" where
  "decimal_starts =
     [
      48, 1632, 1776, 1984, 2406, 2534, 2662, 2790, 2918, 3046,
      3174, 3302, 3430, 3558, 3664, 3792, 3872, 4160, 4240, 6112,
      6160, 6470, 6608, 6784, 6800, 6992, 7088, 7232, 7248, 42528,
      43216, 43264, 43472, 43504, 43600, 44016, 65296, 66720, 68912, 69734,
      69872, 69942, 70096, 70384, 70736, 70864, 71248, 71360, 71472, 71904,
      72016, 72784, 73040, 73120, 92768, 92864, 93008, 120782, 120792, 120802,
      120812, 120822, 123200, 123632, 125264, 130032
     ]"

fun decimal_in :: "nat list \<Rightarrow> nat \<Rightarrow> nat option" where
  "decimal_in [] c = None"
| "decimal_in (z # zs) c = (if z \<le> c \<and> c \<le> z + 9 then Some (c - z) else decimal_in zs c)"

definition decimal_value :: "nat \<Rightarrow> nat option" where
  "decimal_value c = decimal_in decimal_starts c"

definition max_str_digits :: nat where
  "max_str_digits = 4300"

text \<open>The value of the digits read so far, and how many digits they are.\<close>

fun int_digits :: "nat \<Rightarrow> nat \<Rightarrow> bool \<Rightarrow> pystr \<Rightarrow> (nat \<times> nat) option" where
  "int_digits acc k after_digit [] = (if after_digit then Some (acc, k) else None)"
| "int_digits acc k after_digit (c # cs) =
     (case decimal_value c of
        Some d \<Rightarrow> int_digits (10 * acc + d) (Suc k) True cs
      | None \<Rightarrow> if c = 95 \<and> after_digit then int_digits acc k False cs else None)"

definition py_int :: "pystr \<Rightarrow> exn + int" where
  "py_int s =
     (let t = rev (dropWhile is_int_space (rev (dropWhile is_int_space s)));
          negative = (case t of [] \<Rightarrow> False | c # r \<Rightarrow> c = 45);
          body = (case t of [] \<Rightarrow> [] | c # r \<Rightarrow> if c = 45 \<or> c = 43 then r else t)
      in case int_digits 0 0 False body of
           None \<Rightarrow> Inl ValueError
         | Some (n, k) \<Rightarrow>
             if max_str_digits < k then Inl ValueError
             else Inr (if negative then - int n else int n))"

text \<open>
  \<open>str(n)\<close> for an int, as the f-strings of \<open>save\<close> format it: ValueError when the
  number has more than 4300 digits.
\<close>

fun nat_digits :: "nat \<Rightarrow> pystr" where
  "nat_digits n = (if n < 10 then [48 + n] else nat_digits (n div 10) @ [48 + n mod 10])"

declare nat_digits.simps [simp del]

definition py_str :: "int \<Rightarrow> exn + pystr" where
  "py_str n =
     (let digits = nat_digits (nat \<bar>n\<bar>) in
      if max_str_digits < length digits then Inl ValueError
      else Inr (if n < 0 then 45 # digits else digits))"

text \<open>
  A text file opened for reading translates the line ends \<open>\r\n\<close> and \<open>\r\<close> to
  \<open>\n\<close>. The file object is the list of the lines that are still unread, each with
  its \<open>\n\<close> (the last line may have none); \<open>readline\<close> at the end of the file returns
  the empty string. The file is taken as the text it holds: its bytes decode as UTF-8.
\<close>

fun file_lines_acc :: "bool \<Rightarrow> pystr \<Rightarrow> pystr \<Rightarrow> pystr list" where
  "file_lines_acc after_cr cur [] = (if cur = [] then [] else [cur])"
| "file_lines_acc after_cr cur (c # cs) =
     (if c = 10 \<and> after_cr then file_lines_acc False cur cs
      else if c = 10 \<or> c = 13 then (cur @ [10]) # file_lines_acc (c = 13) [] cs
      else file_lines_acc False (cur @ [c]) cs)"

definition file_lines :: "pystr \<Rightarrow> pystr list" where
  "file_lines content = file_lines_acc False [] content"

fun readline :: "pystr list \<Rightarrow> pystr \<times> pystr list" where
  "readline [] = ([], [])"
| "readline (line # f) = (line, f)"

definition endswith :: "pystr \<Rightarrow> pystr \<Rightarrow> bool" where
  "endswith s suffix \<longleftrightarrow> length suffix \<le> length s \<and> drop (length s - length suffix) s = suffix"

subsection \<open>base.py: \<open>save\<close> and \<open>load\<close>\<close>

text \<open>
  \<open>f.write(s)\<close> on a text file opened for writing with the default encoding, which
  is taken to be UTF-8, and with the line separator \<open>\n\<close> (as on Linux and macOS): a
  surrogate in \<open>s\<close> raises UnicodeEncodeError, and otherwise the text \<open>s\<close> goes to the
  file as it is.
\<close>

definition file_write :: "pystr \<Rightarrow> exn + pystr" where
  "file_write s = (case utf8_encode s of Inl e \<Rightarrow> Inl e | Inr b \<Rightarrow> Inr s)"

text \<open>
  \<open>save\<close> writes the model file and then the listing \<open>file_prefix + ".vocab"\<close>, which
  nothing reads back and which is written when the model file is complete and
  closed. The model is up to there: the name and the text of the model file, or the
  exception of an f-string (an id of more than 4300 digits) or of a \<open>f.write\<close>; the
  file that an exception leaves half written is not modelled.
\<close>

fun save_special_tokens :: "(pystr, int) dict \<Rightarrow> exn + pystr" where
  "save_special_tokens [] = Inr []"
| "save_special_tokens ((special, idx) # sp) =
     (case py_str idx of
        Inl e \<Rightarrow> Inl e
      | Inr s \<Rightarrow>
          (case file_write (special @ [32] @ s @ [10]) of
             Inl e \<Rightarrow> Inl e
           | Inr line \<Rightarrow>
               (case save_special_tokens sp of
                  Inl e \<Rightarrow> Inl e
                | Inr r \<Rightarrow> Inr (line @ r))))"

fun save_merges :: "(pair, int) dict \<Rightarrow> exn + pystr" where
  "save_merges [] = Inr []"
| "save_merges (((idx1, idx2), idx) # ms) =
     (case py_str idx1 of
        Inl e \<Rightarrow> Inl e
      | Inr s1 \<Rightarrow>
          (case py_str idx2 of
             Inl e \<Rightarrow> Inl e
           | Inr s2 \<Rightarrow>
               (case file_write (s1 @ [32] @ s2 @ [10]) of
                  Inl e \<Rightarrow> Inl e
                | Inr line \<Rightarrow>
                    (case save_merges ms of
                       Inl e \<Rightarrow> Inl e
                     | Inr r \<Rightarrow> Inr (line @ r)))))"

definition save :: "tokenizer \<Rightarrow> pystr \<Rightarrow> exn + pystr \<times> pystr" where
  "save self file_prefix =
     (case file_write (VERSION self @ [10]) of
        Inl e \<Rightarrow> Inl e
      | Inr version_line \<Rightarrow>
     (case file_write (patterns self @ [10]) of
        Inl e \<Rightarrow> Inl e
      | Inr patterns_line \<Rightarrow>
     (case py_str (int (length (special_tokens self))) of
        Inl e \<Rightarrow> Inl e
      | Inr n \<Rightarrow>
     (case file_write (n @ [10]) of
        Inl e \<Rightarrow> Inl e
      | Inr count_line \<Rightarrow>
     (case save_special_tokens (special_tokens self) of
        Inl e \<Rightarrow> Inl e
      | Inr special_text \<Rightarrow>
     (case save_merges (merges self) of
        Inl e \<Rightarrow> Inl e
      | Inr merges_text \<Rightarrow>
          Inr (file_prefix @ py ''.model'',
               version_line @ patterns_line @ count_line @ special_text @ merges_text)))))))"

text \<open>
  \<open>load\<close>. Its local variable \<open>idx\<close> starts as the int 256; the loop over the
  special tokens unpacks each line into \<open>special, idx\<close>, which leaves a \<open>str\<close> in
  \<open>idx\<close>. The loop over the merge lines then stores \<open>idx\<close> and runs \<open>idx += 1\<close>, which
  raises TypeError when \<open>idx\<close> is a \<open>str\<close>.
\<close>

datatype pyval = IntV int | StrV pystr

fun read_special_tokens ::
  "nat \<Rightarrow> pystr list \<Rightarrow> (pystr, int) dict \<Rightarrow> pyval
   \<Rightarrow> exn + (pystr, int) dict \<times> pyval \<times> pystr list" where
  "read_special_tokens 0 f special_tokens' idx = Inr (special_tokens', idx, f)"
| "read_special_tokens (Suc n) f special_tokens' idx =
     (case split (strip (fst (readline f))) of
        [special, idx'] \<Rightarrow>
          (case py_int idx' of
             Inl e \<Rightarrow> Inl e
           | Inr v \<Rightarrow>
               read_special_tokens n (snd (readline f)) (dict_set special_tokens' special v)
                 (StrV idx'))
      | _ \<Rightarrow> Inl ValueError)"

text \<open>
  \<open>idx1, idx2 = map(int, line.strip().split())\<close>: the unpacking asks the lazy \<open>map\<close>
  for a third element, so a third field is converted too; every failure is a
  ValueError.
\<close>

definition parse_pair :: "pystr \<Rightarrow> exn + pair" where
  "parse_pair line =
     (case split (strip line) of
        [a, b] \<Rightarrow>
          (case py_int a of
             Inl e \<Rightarrow> Inl e
           | Inr idx1 \<Rightarrow> (case py_int b of Inl e \<Rightarrow> Inl e | Inr idx2 \<Rightarrow> Inr (idx1, idx2)))
      | _ \<Rightarrow> Inl ValueError)"

fun read_merges :: "pystr list \<Rightarrow> pyval \<Rightarrow> (pair, int) dict \<Rightarrow> exn + (pair, int) dict" where
  "read_merges [] idx merges' = Inr merges'"
| "read_merges (line # f) idx merges' =
     (case parse_pair line of
        Inl e \<Rightarrow> Inl e
      | Inr p \<Rightarrow>
          (case idx of
             StrV s \<Rightarrow> Inl TypeError
           | IntV i \<Rightarrow> read_merges f (IntV (i + 1)) (dict_set merges' p i)))"

definition load :: "tokenizer \<Rightarrow> pystr \<Rightarrow> pystr \<Rightarrow> (exn + unit) \<times> tokenizer" where
  "load self model_file content =
     (if \<not> endswith model_file (py ''.model'') then (Inl AssertionError, self)
      else
        let f = file_lines content;
            version = strip (fst (readline f));
            f1 = snd (readline f)
        in if version \<noteq> VERSION self then (Inl AssertionError, self)
           else
             let self1 = self\<lparr> patterns := strip (fst (readline f1)) \<rparr>;
                 f2 = snd (readline f1);
                 f3 = snd (readline f2)
             in case py_int (strip (fst (readline f2))) of
                  Inl e \<Rightarrow> (Inl e, self1)
                | Inr n_special_tokens \<Rightarrow>
                    (case read_special_tokens (nat n_special_tokens) f3 [] (IntV 256) of
                       Inl e \<Rightarrow> (Inl e, self1)
                     | Inr (special_tokens', idx, f4) \<Rightarrow>
                         (case read_merges f4 idx [] of
                            Inl e \<Rightarrow> (Inl e, self1)
                          | Inr merges' \<Rightarrow>
                              (let self2 = self1\<lparr> merges := merges',
                                                  special_tokens := special_tokens' \<rparr>
                               in case build_vocab self2 of
                                    Inl e \<Rightarrow> (Inl e, self2)
                                  | Inr v \<Rightarrow> (Inr (), self2\<lparr> vocab := v \<rparr>)))))"

subsection \<open>Notions used to state the properties\<close>

text \<open>
  The lines of a model file that the loop \<open>for line in f\<close> of \<open>load\<close> reads: what
  is left after the version line, the pattern line, the count line and as many
  special-token lines as the count says.
\<close>

definition merge_lines :: "pystr \<Rightarrow> pystr list" where
  "merge_lines content =
     (let f = file_lines content in
      case py_int (strip (fst (readline (drop 2 f)))) of
        Inl e \<Rightarrow> []
      | Inr n_special_tokens \<Rightarrow> drop (3 + nat n_special_tokens) f)"

text \<open>The ids 256, 257, ... that \<open>load\<close> gives to the merge lines, in their order.\<close>

definition merge_ids :: "nat \<Rightarrow> int list" where
  "merge_ids n = map (\<lambda>k. 256 + int k) [0 ..< n]"

definition renumber :: "(pair, int) dict \<Rightarrow> (pair, int) dict" where
  "renumber ms = zip (map fst ms) (merge_ids (length ms))"

text \<open>
  A string that a line of a model file carries unchanged: no line end inside, no
  whitespace at its ends. A string that is one field of a line: not empty and free
  of whitespace.
\<close>

definition line_safe :: "pystr \<Rightarrow> bool" where
  "line_safe s \<longleftrightarrow> list_all (\<lambda>c. c \<noteq> 10 \<and> c \<noteq> 13) s \<and> strip s = s"

definition field_safe :: "pystr \<Rightarrow> bool" where
  "field_safe s \<longleftrightarrow> s \<noteq> [] \<and> list_all (\<lambda>c. \<not> is_space c) s"

text \<open>The pairs of neighbours of a sequence: \<open>zip(ids, ids[1:])\<close>.\<close>

definition adjacent :: "int list \<Rightarrow> pair set" where
  "adjacent ids = set (zip ids (tl ids))"

text \<open>
  What holds of the local variables of \<open>train\<close> before iteration \<open>k\<close> of its loop:
  the ids of the sequence are below the next id; no pair of the merge table is a
  pair of neighbours of the sequence any more, and its parts are below the next id;
  the table has \<open>k\<close> entries with the ids 256, 257, ... in this order; the local
  \<open>vocab\<close> is what the first loop of \<open>_build_vocab\<close> makes of the table.
\<close>

definition train_inv :: "nat \<Rightarrow> int list \<times> (pair, int) dict \<times> (int \<rightharpoonup> bytes) \<Rightarrow> bool" where
  "train_inv k locals \<longleftrightarrow>
     (case locals of (ids, m, v) \<Rightarrow>
        (\<forall>x\<in>set ids. x < 256 + int k)
      \<and> (\<forall>p\<in>fst ` set m. p \<notin> adjacent ids \<and> fst p < 256 + int k \<and> snd p < 256 + int k)
      \<and> map snd m = merge_ids k \<and> length m = k
      \<and> vocab_merges m base_vocab = Inr v)"

section \<open>Properties of \<open>merge\<close>\<close>

lemma drop_last1: "i < length ids \<Longrightarrow> \<not> i < length ids - 1 \<Longrightarrow> drop i ids = [ids ! i]"
proof -
  assume a: "i < length ids" and b: "\<not> i < length ids - 1"
  then have "Suc i = length ids" by arith
  then have "drop (Suc i) ids = []" by simp
  with a show ?thesis using Cons_nth_drop_Suc[of i ids] by simp
qed

lemma drop_two: "i < length ids - 1 \<Longrightarrow> drop i ids = ids ! i # ids ! (i + 1) # drop (i + 2) ids"
proof -
  assume a: "i < length ids - 1"
  then have 1: "i < length ids" and 2: "Suc i < length ids" by arith+
  show ?thesis using Cons_nth_drop_Suc[OF 1] Cons_nth_drop_Suc[OF 2] by simp
qed

lemma merge_loop_drop:
  "merge_loop ids pair idx i newids = newids @ spec_merge_scan (drop i ids) pair idx"
proof (induction ids pair idx i newids rule: merge_loop.induct)
  case (1 ids pair idx i newids)
  show ?case
  proof (cases "i < length ids")
    case False
    then show ?thesis by (subst merge_loop.simps) simp
  next
    case inside: True
    show ?thesis
    proof (cases "i < length ids - 1")
      case False
      with inside 1 show ?thesis
        by (subst merge_loop.simps) (simp add: drop_last1)
    next
      case True
      have d1: "drop (i + 1) ids = ids ! (i + 1) # drop (i + 2) ids"
        using True Cons_nth_drop_Suc[of "Suc i" ids] by simp
      show ?thesis
        using inside True 1 drop_two[OF True] d1 by (subst merge_loop.simps) simp
    qed
  qed
qed

lemma merge_scan: "merge ids pair idx = spec_merge_scan ids pair idx"
  by (simp add: merge_def merge_loop_drop)

lemma spec_merge_scan_length: "length (spec_merge_scan ids P R) \<le> length ids"
  by (induction ids P R rule: spec_merge_scan.induct) auto

text \<open>
  Claim C5. For every integer sequence S, pair P and replacement id R, \<open>merge\<close> is the
  single left-to-right scan that replaces non-overlapping occurrences of P by R: it
  computes what the scan of the specification computes; on [X, X, X] with the pair
  (X, X) it gives [R, X] (which differs from [X, R] and [R, R] as soon as R is not X);
  \<open>merge([1,2,3,1,2], (1,2), 4)\<close> is [4, 3, 4]; the output is never longer than the
  input.
\<close>

theorem merge_single_pass:
  "merge S P R = spec_merge_scan S P R
   \<and> merge [X, X, X] (X, X) R = [R, X]
   \<and> (R \<noteq> X \<longrightarrow> merge [X, X, X] (X, X) R \<noteq> [X, R] \<and> merge [X, X, X] (X, X) R \<noteq> [R, R])
   \<and> merge [1, 2, 3, 1, 2] (1, 2) 4 = [4, 3, 4]
   \<and> length (merge S P R) \<le> length S"
  by (simp add: merge_scan spec_merge_scan_length)

theorem merge_single_pass_witness:
  "(2::int) \<noteq> 1
   \<and> merge [1, 2, 1] (1, 2) 2 = spec_merge_scan [1, 2, 1] (1, 2) 2
   \<and> merge [1, 1, 1] (1, 1) 2 = [2, 1]
   \<and> merge [1, 1, 1] (1, 1) 2 \<noteq> [1, 2] \<and> merge [1, 1, 1] (1, 1) 2 \<noteq> [2, 2]
   \<and> length (merge [1, 2, 1] (1, 2) 2) \<le> length [1, 2, 1 :: int]"
  using merge_single_pass [of "[1, 2, 1]" "(1, 2)" 2 1] by simp


text \<open>What a merge does to the pairs of neighbours, and to the length.\<close>

lemma adjacent_simps [simp]:
  "adjacent [] = {}" "adjacent [x] = {}" "adjacent (x # y # r) = insert (x, y) (adjacent (y # r))"
  by (simp_all add: adjacent_def)

lemma scan_hd: "spec_merge_scan (y # r) P R \<noteq> [] \<and>
  (hd (spec_merge_scan (y # r) P R) = y \<or> hd (spec_merge_scan (y # r) P R) = R)"
  by (cases r) auto

lemma adjacent_Cons: "adjacent (a # l) = (if l = [] then {} else insert (a, hd l) (adjacent l))"
  by (cases l) simp_all

lemma scan_adjacent:
  "(x, y) \<in> adjacent (spec_merge_scan xs P R) \<Longrightarrow> x \<noteq> R \<Longrightarrow> y \<noteq> R
   \<Longrightarrow> (x, y) \<in> adjacent xs \<and> (x, y) \<noteq> P"
proof (induction xs P R rule: spec_merge_scan.induct)
  case (1 x0 y0 xs P R)
  show ?case
  proof (cases "x0 = fst P \<and> y0 = snd P")
    case True
    then have eq: "spec_merge_scan (x0 # y0 # xs) P R = R # spec_merge_scan xs P R"
      by (simp only: spec_merge_scan.simps if_P if_True)
    have "(x, y) \<in> adjacent (R # spec_merge_scan xs P R)" using "1.prems"(1) unfolding eq .
    then have "(x, y) \<in> adjacent (spec_merge_scan xs P R)"
      using "1.prems"(2) by (simp add: adjacent_Cons split: if_splits)
    from "1.IH"(1)[OF True this "1.prems"(2,3)] show ?thesis
      by (cases xs) auto
  next
    case False
    then have eq: "spec_merge_scan (x0 # y0 # xs) P R = x0 # spec_merge_scan (y0 # xs) P R"
      by (simp only: spec_merge_scan.simps if_not_P if_False)
    have m: "(x, y) \<in> adjacent (x0 # spec_merge_scan (y0 # xs) P R)"
      using "1.prems"(1) unfolding eq .
    have h: "hd (spec_merge_scan (y0 # xs) P R) = y0 \<or> hd (spec_merge_scan (y0 # xs) P R) = R"
      and ne: "spec_merge_scan (y0 # xs) P R \<noteq> []"
      using scan_hd[of y0 xs P R] by auto
    from m ne have "(x, y) = (x0, hd (spec_merge_scan (y0 # xs) P R))
        \<or> (x, y) \<in> adjacent (spec_merge_scan (y0 # xs) P R)"
      by (simp add: adjacent_Cons)
    then show ?thesis
    proof
      assume e: "(x, y) = (x0, hd (spec_merge_scan (y0 # xs) P R))"
      with h "1.prems"(3) have "x = x0" "y = y0" by auto
      then show ?thesis using False by (auto simp: prod_eq_iff)
    next
      assume "(x, y) \<in> adjacent (spec_merge_scan (y0 # xs) P R)"
      from "1.IH"(2)[OF False this "1.prems"(2,3)] show ?thesis by auto
    qed
  qed
qed simp_all

lemma scan_set: "set (spec_merge_scan xs P R) \<subseteq> insert R (set xs)"
  by (induction xs P R rule: spec_merge_scan.induct) auto

lemma scan_shortens:
  "P \<in> adjacent xs \<Longrightarrow> length (spec_merge_scan xs P R) < length xs
     \<and> 1 \<le> length (spec_merge_scan xs P R)"
proof (induction xs P R rule: spec_merge_scan.induct)
  case (1 x0 y0 xs P R)
  show ?case
  proof (cases "x0 = fst P \<and> y0 = snd P")
    case True
    then have eq: "spec_merge_scan (x0 # y0 # xs) P R = R # spec_merge_scan xs P R"
      by (simp only: spec_merge_scan.simps if_P if_True)
    have "length (spec_merge_scan xs P R) \<le> length xs" by (rule spec_merge_scan_length)
    then show ?thesis unfolding eq by simp
  next
    case False
    then have eq: "spec_merge_scan (x0 # y0 # xs) P R = x0 # spec_merge_scan (y0 # xs) P R"
      by (simp only: spec_merge_scan.simps if_not_P if_False)
    have "P \<in> adjacent (y0 # xs)" using False "1.prems" by (auto simp: prod_eq_iff)
    from "1.IH"(2)[OF False this] show ?thesis unfolding eq by simp
  qed
qed simp_all

section \<open>Evaluating the model on concrete inputs\<close>

lemma py_simps: "py [] = []" "py (c # s) = of_char c # py s"
  by (simp_all add: py_def)

lemmas text_eval = py_simps strip_def is_space_def split_def py_int_def is_int_space_def
  decimal_value_def decimal_starts_def max_str_digits_def parse_pair_def endswith_def
  file_lines_def

section \<open>UTF-8: what the decoder accepts is what the encoder writes\<close>















section \<open>\<open>decode\<close>\<close>






section \<open>\<open>encode\<close> and \<open>train\<close>: the call \<open>get_stats(ids)\<close>\<close>

lemma encode_loop_raises: "2 \<le> length ids \<Longrightarrow> encode_loop m ids = Inl TypeError"
  by (subst encode_loop.simps) (simp add: call_get_stats_def)

lemma encode_loop_short: "length ids < 2 \<Longrightarrow> encode_loop m ids = Inr ids"
  by (subst encode_loop.simps) simp

lemma train_loop_raises: "rng \<noteq> [] \<Longrightarrow> train_loop rng locals = Inl TypeError"
  by (cases rng; cases locals) (simp_all add: call_get_stats_def)

text \<open>
  Claim C1 (round trip \<open>decode(encode(text)) == text\<close>), at the text \<open>ab\<close> on a new
  tokenizer: \<open>encode\<close> raises TypeError, at its call of \<open>get_stats\<close> with one
  argument, where the claim has it return ids that decode to \<open>ab\<close>; the ids 97, 98
  do decode to \<open>ab\<close>.
\<close>

theorem encode_two_bytes_raises:
  "encode tokenizer_init (py ''ab'') = Inl TypeError
   \<and> decode tokenizer_init [97, 98] = Inr (py ''ab'')"
  by (simp add: encode_def decode_def tokenizer_init_def py_simps utf8_char_def encode_loop_raises
      base_vocab_def utf8_decode_replace_def utf8_dec.simps(2))

text \<open>
  Claim C6 (\<open>train\<close> with \<open>vocab_size\<close> at least 256 performs \<open>vocab_size - 256\<close> merge
  steps), at the text \<open>aaabdaaabac\<close> and \<open>vocab_size\<close> 259 on a new tokenizer: \<open>train\<close>
  raises TypeError in the first iteration and leaves the tokenizer as it was, with
  no merge.
\<close>

theorem train_three_merges_raises:
  "train tokenizer_init (py ''aaabdaaabac'') 259 = (Inl TypeError, tokenizer_init)"
  by (simp add: train_def py_simps utf8_char_def call_get_stats_def upt_rec)

section \<open>\<open>encode\<close> ends\<close>

lemma utf8_encode_error: "utf8_encode s = Inl e \<Longrightarrow> e = UnicodeEncodeError"
  by (induction s arbitrary: e) (auto simp: utf8_char_def split: if_splits sum.splits)

lemma py_min_loop_in: "py_min_loop key best xs \<in> insert best (set xs)"
  by (induction xs arbitrary: best) auto

lemma py_min_in: "py_min xs key = Inr p \<Longrightarrow> p \<in> set xs"
  using py_min_loop_in[of key] by (cases xs) (auto simp: py_min_def)

lemma dict_set_map_fst:
  "map fst (dict_set d k v) = (if k \<in> set (map fst d) then map fst d else map fst d @ [k])"
  by (induction d) force+

lemma dict_set_keys: "fst ` set (dict_set d k v) = insert k (fst ` set d)"
proof -
  have "set (map fst (dict_set d k v)) = insert k (set (map fst d))"
    unfolding dict_set_map_fst by auto
  then show ?thesis by simp
qed

lemma get_stats_keys: "fst ` set (get_stats ids None) = adjacent ids"
proof -
  have "fst ` set (foldl (\<lambda>c p. dict_set c p ((case dict_get c p of None \<Rightarrow> 0 | Some n \<Rightarrow> n) + 1)) c ps)
        = fst ` set c \<union> set ps" for c :: "(pair, int) dict" and ps
    by (induction ps arbitrary: c) (auto simp: dict_set_keys)
  then show ?thesis by (simp add: get_stats_def adjacent_def)
qed

text \<open>
  Claim C9. \<open>encode\<close> ends on every text and every merge table. The loop of \<open>encode\<close>
  is a recursion on the length of the sequence: the pair an iteration goes on to
  merge is one that \<open>min\<close> takes from the pairs of neighbours of the sequence, and
  merging such a pair makes the sequence strictly shorter and leaves at least one
  element. Every call of \<open>encode\<close> has an outcome: UnicodeEncodeError from the
  encoding of the text, TypeError from the call of \<open>get_stats\<close>, or the ids of a text
  of fewer than two bytes.
\<close>

theorem encode_ends:
  "(encode self text = Inl UnicodeEncodeError \<or> encode self text = Inl TypeError
      \<or> (\<exists>ids. encode self text = Inr ids \<and> length ids < 2))
   \<and> (py_min (map fst (get_stats ids None)) key = Inr pair \<longrightarrow>
        length (merge ids pair idx) < length ids \<and> 1 \<le> length (merge ids pair idx))"
proof (rule conjI)
  show "encode self text = Inl UnicodeEncodeError \<or> encode self text = Inl TypeError
      \<or> (\<exists>ids. encode self text = Inr ids \<and> length ids < 2)"
  proof (cases "utf8_encode text")
    case (Inl e)
    then show ?thesis using utf8_encode_error[OF Inl] by (simp add: encode_def)
  next
    case (Inr bs)
    show ?thesis
    proof (cases "2 \<le> length bs")
      case True
      then show ?thesis using Inr by (simp add: encode_def encode_loop_raises)
    next
      case False
      then show ?thesis using Inr by (simp add: encode_def encode_loop_short)
    qed
  qed
next
  show "py_min (map fst (get_stats ids None)) key = Inr pair \<longrightarrow>
        length (merge ids pair idx) < length ids \<and> 1 \<le> length (merge ids pair idx)"
  proof (rule impI)
    assume "py_min (map fst (get_stats ids None)) key = Inr pair"
    from py_min_in[OF this] have "pair \<in> adjacent ids"
      using get_stats_keys[of ids] by auto
    from scan_shortens[OF this, of idx]
    show "length (merge ids pair idx) < length ids \<and> 1 \<le> length (merge ids pair idx)"
      by (simp add: merge_scan)
  qed
qed

theorem encode_ends_witness:
  "py_min (map fst (get_stats [1, 2, 1, 2] None))
      (\<lambda>p. case dict_get [((1, 2), 256)] p of Some r \<Rightarrow> Rank r | None \<Rightarrow> Infinity) = Inr (1, 2)
   \<and> merge [1, 2, 1, 2] (1, 2) 256 = [256, 256]
   \<and> length (merge [1, 2, 1, 2] (1, 2) 256) < length [1, 2, 1, 2 :: int]
   \<and> 1 \<le> length (merge [1, 2, 1, 2] (1, 2) 256)
   \<and> encode tokenizer_init (py ''a'') = Inr [97]"
proof -
  have m: "py_min (map fst (get_stats [1, 2, 1, 2] None))
      (\<lambda>p. case dict_get [((1, 2), 256)] p of Some r \<Rightarrow> Rank r | None \<Rightarrow> Infinity) = Inr (1, 2)"
    by (simp add: get_stats_def py_min_def)
  have e: "encode tokenizer_init (py ''a'') = Inr [97]"
    by (simp add: encode_def py_simps utf8_char_def encode_loop_short)
  show ?thesis
    using m e
      encode_ends [of tokenizer_init "py ''a''" "[1, 2, 1, 2]"
        "\<lambda>p. case dict_get [((1, 2), 256)] p of Some r \<Rightarrow> Rank r | None \<Rightarrow> Infinity"
        "(1, 2)" 256]
    by (simp add: merge_scan)
qed

section \<open>\<open>load\<close>: the version line and parse errors\<close>

text \<open>
  Claim C7, as the code has it: \<open>load\<close> compares the first line with the version
  string after \<open>strip()\<close>. For every tokenizer and every model file whose first line,
  with the whitespace at both ends removed, is not the version string, \<open>load\<close> raises
  AssertionError and leaves the tokenizer as it was.
\<close>

theorem load_version_mismatch:
  "strip (fst (readline (file_lines content))) \<noteq> VERSION self
   \<Longrightarrow> load self model_file content = (Inl AssertionError, self)"
  by (simp add: load_def Let_def)

theorem load_version_mismatch_witness:
  "strip (fst (readline (file_lines (py ''bpe v2.0'' @ [10])))) \<noteq> VERSION tokenizer_init
   \<and> load tokenizer_init (py ''bpe.model'') (py ''bpe v2.0'' @ [10])
       = (Inl AssertionError, tokenizer_init)"
proof -
  have h: "strip (fst (readline (file_lines (py ''bpe v2.0'' @ [10])))) \<noteq> VERSION tokenizer_init"
    by (simp add: text_eval tokenizer_init_def)
  show ?thesis
    using h load_version_mismatch [OF h, of "py ''bpe.model''"] by simp
qed

text \<open>
  A first line that is the version string after a space is not equal to the version
  string, and \<open>load\<close> accepts the file.
\<close>

theorem load_padded_version_accepted:
  "file_lines (32 # py ''bpe v1.0'' @ [10, 10] @ py ''0'' @ [10])
     = [32 # py ''bpe v1.0'' @ [10], [10], py ''0'' @ [10]]
   \<and> 32 # py ''bpe v1.0'' \<noteq> VERSION tokenizer_init
   \<and> load tokenizer_init (py ''bpe.model'') (32 # py ''bpe v1.0'' @ [10, 10] @ py ''0'' @ [10])
       = (Inr (), tokenizer_init)"
  by (simp add: load_def text_eval tokenizer_init_def build_vocab_def)

text \<open>
  Claim C10. \<open>load\<close> is not atomic on a parse error: for a model file whose first
  line is the version string and whose merge line is malformed (three fields, or a
  field that is no integer), \<open>load\<close> raises ValueError and leaves the tokenizer with
  the pattern of the file, all other attributes as they were before the call.
\<close>

theorem load_not_atomic:
  "load (self\<lparr> VERSION := py ''bpe v1.0'' \<rparr>) (py ''bpe.model'')
      (py ''bpe v1.0'' @ [10] @ py ''pat'' @ [10] @ py ''0'' @ [10] @ py ''1 2 3'' @ [10])
     = (Inl ValueError, self\<lparr> VERSION := py ''bpe v1.0'', patterns := py ''pat'' \<rparr>)
   \<and> load (self\<lparr> VERSION := py ''bpe v1.0'' \<rparr>) (py ''bpe.model'')
      (py ''bpe v1.0'' @ [10] @ py ''pat'' @ [10] @ py ''0'' @ [10] @ py ''1 x'' @ [10])
     = (Inl ValueError, self\<lparr> VERSION := py ''bpe v1.0'', patterns := py ''pat'' \<rparr>)"
  by (simp add: load_def text_eval)


section \<open>\<open>load\<close> and \<open>train\<close>: the ids of the merge table\<close>

lemma readline_snd: "snd (readline f) = tl f"
  by (cases f) simp_all

lemma drop_header: "drop 2 f = tl (tl f)" "drop (3 + k) f = drop k (tl (tl (tl f)))"
  by (simp_all add: numeral_2_eq_2 numeral_3_eq_3 drop_Suc)

lemma split_empty: "split (strip []) = []"
  by (simp add: split_def strip_def)

lemma read_special_tokens_rest:
  "read_special_tokens n f sp idx = Inr (sp', idx', f')
   \<Longrightarrow> f' = drop n f \<and> (n = 0 \<longrightarrow> idx' = idx \<and> sp' = sp) \<and> (0 < n \<longrightarrow> (\<exists>s. idx' = StrV s))"
proof (induction n arbitrary: f sp idx)
  case 0
  then show ?case by simp
next
  case (Suc n)
  show ?case
  proof (cases f)
    case Nil
    with Suc.prems show ?thesis by (simp add: split_empty)
  next
    case (Cons l f1)
    from Suc.prems Cons obtain special t v where
      sp: "split (strip l) = [special, t]" and v: "py_int t = Inr v"
      and r: "read_special_tokens n f1 (dict_set sp special v) (StrV t) = Inr (sp', idx', f')"
      by (auto split: list.splits sum.splits)
    from Suc.IH[OF r] show ?thesis using Cons by (cases n) auto
  qed
qed

lemma read_merges_str:
  "read_merges f (StrV s) m = Inr m' \<Longrightarrow> f = [] \<and> m' = m"
  by (cases f) (auto split: sum.splits)

lemma dict_set_fresh: "k \<notin> fst ` set d \<Longrightarrow> dict_set d k v = d @ [(k, v)]"
  by (induction d) auto

lemma read_merges_int:
  "read_merges f (IntV i) m = Inr m'
   \<Longrightarrow> \<exists>ps. map parse_pair f = map Inr ps
          \<and> m' = foldl (\<lambda>d (p, j). dict_set d p j) m (zip ps (map (\<lambda>k. i + int k) [0 ..< length ps]))"
proof (induction f arbitrary: i m)
  case Nil
  then show ?case by simp
next
  case (Cons l f)
  from Cons.prems obtain p where p: "parse_pair l = Inr p"
    and r: "read_merges f (IntV (i + 1)) (dict_set m p i) = Inr m'"
    by (auto split: sum.splits)
  from Cons.IH[OF r] obtain ps where ps: "map parse_pair f = map Inr ps"
    and m': "m' = foldl (\<lambda>d (p, j). dict_set d p j) (dict_set m p i)
                   (zip ps (map (\<lambda>k. i + 1 + int k) [0 ..< length ps]))"
    by blast
  have sh: "map (\<lambda>k. i + int k) [0 ..< Suc (length ps)]
            = i # map (\<lambda>k. i + 1 + int k) [0 ..< length ps]"
    by (simp add: upt_conv_Cons map_Suc_upt[symmetric] del: upt_Suc)
  show ?case
    by (rule exI[of _ "p # ps"]) (simp add: p ps m' sh del: upt_Suc)
qed

lemma foldl_dict_set_fresh:
  "distinct ps \<Longrightarrow> set ps \<inter> fst ` set m = {} \<Longrightarrow> length js = length ps
   \<Longrightarrow> foldl (\<lambda>d (p, j). dict_set d p j) m (zip ps js) = m @ zip ps js"
proof (induction ps arbitrary: m js)
  case Nil
  then show ?case by simp
next
  case (Cons p ps)
  then obtain j js' where js: "js = j # js'" by (cases js) auto
  have f: "dict_set m p j = m @ [(p, j)]" using Cons.prems by (simp add: dict_set_fresh)
  have "foldl (\<lambda>d (p, j). dict_set d p j) (m @ [(p, j)]) (zip ps js') = (m @ [(p, j)]) @ zip ps js'"
    using Cons.prems js by (intro Cons.IH) auto
  then show ?case by (simp add: js f)
qed


lemma load_success:
  assumes "load self model_file content = (Inr (), self')"
  shows "\<exists>n sp idx f4 m v.
      py_int (strip (fst (readline (tl (tl (file_lines content)))))) = Inr n
    \<and> read_special_tokens (nat n) (tl (tl (tl (file_lines content)))) [] (IntV 256)
        = Inr (sp, idx, f4)
    \<and> read_merges f4 idx [] = Inr m
    \<and> build_vocab (self\<lparr> patterns := strip (fst (readline (tl (file_lines content)))),
                         merges := m, special_tokens := sp \<rparr>) = Inr v
    \<and> self' = self\<lparr> patterns := strip (fst (readline (tl (file_lines content)))),
                     merges := m, special_tokens := sp, vocab := v \<rparr>"
  using assms
  by (auto simp: load_def Let_def readline_snd split: if_splits sum.splits prod.splits)

text \<open>\<open>train\<close>: the loop with the call of \<open>get_stats\<close> as a parameter.\<close>

lemma train_loop_is_with:
  "train_loop rng locals = train_loop_with (\<lambda>ids. call_get_stats ids Missing) rng locals"
  by (induction rng locals rule: train_loop.induct) (simp_all add: call_get_stats_def)

lemma train_is_with:
  "train self text vocab_size = train_with (\<lambda>ids. call_get_stats ids Missing) self text vocab_size"
  by (auto simp: train_def train_with_def train_loop_is_with Let_def split: sum.splits)

lemma source_call_returns_pair_counts: "returns_pair_counts (\<lambda>ids. call_get_stats ids Missing)"
  by (simp add: returns_pair_counts_def call_get_stats_def)

lemma py_max_loop_in: "py_max_loop key best xs \<in> insert best (set xs)"
  by (induction xs arbitrary: best) auto

lemma py_max_in: "py_max xs key = Inr p \<Longrightarrow> p \<in> set xs"
  using py_max_loop_in[of key] by (cases xs) (auto simp: py_max_def)

lemma vocab_merges_append:
  "vocab_merges (m @ m2) v0
   = (case vocab_merges m v0 of Inl e \<Rightarrow> Inl e | Inr v \<Rightarrow> vocab_merges m2 v)"
  by (induction m arbitrary: v0) (auto split: option.splits prod.splits)

lemma adjacent_elems: "(x, y) \<in> adjacent ids \<Longrightarrow> x \<in> set ids \<and> y \<in> set ids"
  by (induction ids) (auto simp: adjacent_Cons split: if_splits)

lemma merge_ids_Suc: "merge_ids (Suc k) = merge_ids k @ [256 + int k]"
  by (simp add: merge_ids_def)

lemma train_step_inv:
  assumes inv: "train_inv k (ids, m, v)"
    and pair: "pair \<in> adjacent ids"
    and b0: "v (fst pair) = Some b0" and b1: "v (snd pair) = Some b1"
  shows "train_inv (Suc k)
           (merge ids pair (256 + int k), dict_set m pair (256 + int k),
            v(256 + int k \<mapsto> b0 @ b1))"
proof -
  let ?idx = "256 + int k"
  from inv have small: "\<forall>x\<in>set ids. x < ?idx"
    and keys: "\<forall>p\<in>fst ` set m. p \<notin> adjacent ids \<and> fst p < ?idx \<and> snd p < ?idx"
    and ids: "map snd m = merge_ids k" and len: "length m = k"
    and vm: "vocab_merges m base_vocab = Inr v"
    by (simp_all add: train_inv_def)
  have fresh: "pair \<notin> fst ` set m" using keys pair by blast
  have ds: "dict_set m pair ?idx = m @ [(pair, ?idx)]" using fresh by (rule dict_set_fresh)
  have pc: "fst pair < ?idx" "snd pair < ?idx"
    using adjacent_elems[of "fst pair" "snd pair" ids] pair small by auto
  have 1: "\<forall>x\<in>set (merge ids pair ?idx). x < 256 + int (Suc k)"
  proof
    fix x assume "x \<in> set (merge ids pair ?idx)"
    then have "x = ?idx \<or> x \<in> set ids"
      using scan_set[of ids pair ?idx] by (auto simp: merge_scan)
    then show "x < 256 + int (Suc k)" using small by auto
  qed
  have 2: "p \<notin> adjacent (merge ids pair ?idx)"
    if p: "p \<in> insert pair (fst ` set m)" for p
  proof
    assume a: "p \<in> adjacent (merge ids pair ?idx)"
    have lt: "fst p < ?idx" "snd p < ?idx" using p keys pc by auto
    have "(fst p, snd p) \<in> adjacent (spec_merge_scan ids pair ?idx)" using a by (simp add: merge_scan)
    from scan_adjacent[OF this] lt have "(fst p, snd p) \<in> adjacent ids" "(fst p, snd p) \<noteq> pair"
      by auto
    then show False using p keys by auto
  qed
  have 3: "\<forall>p\<in>fst ` set (m @ [(pair, ?idx)]).
             p \<notin> adjacent (merge ids pair ?idx) \<and> fst p < 256 + int (Suc k)
             \<and> snd p < 256 + int (Suc k)"
    using 2 keys pc by auto
  have 4: "map snd (m @ [(pair, ?idx)]) = merge_ids (Suc k)"
    by (simp add: ids merge_ids_Suc)
  have 5: "vocab_merges (m @ [(pair, ?idx)]) base_vocab = Inr (v(?idx \<mapsto> b0 @ b1))"
    using b0 b1 by (cases pair) (simp add: vocab_merges_append vm)
  show ?thesis
    unfolding ds train_inv_def using 1 3 4 5 len by simp
qed

lemma train_loop_inv:
  assumes gs: "returns_pair_counts gs"
  shows "train_inv k locals \<Longrightarrow> train_loop_with gs (map int [k ..< n]) locals = Inr locals'
         \<Longrightarrow> train_inv (max k n) locals'"
proof (induction "n - k" arbitrary: k locals)
  case 0
  then show ?case by (simp add: max_def)
next
  case (Suc d)
  then have kn: "k < n" and d: "d = n - Suc k" by arith+
  obtain ids m v where l: "locals = (ids, m, v)" by (cases locals)
  have up: "map int [k ..< n] = int k # map int [Suc k ..< n]"
    using kn by (simp add: upt_conv_Cons)
  from Suc.prems(2) obtain stats pair b0 b1 where
    st: "gs ids = Inr stats"
    and mx: "py_max (map fst stats) (\<lambda>p. case dict_get stats p of Some n \<Rightarrow> n | None \<Rightarrow> 0) = Inr pair"
    and b0: "v (fst pair) = Some b0" and b1: "v (snd pair) = Some b1"
    and rest: "train_loop_with gs (map int [Suc k ..< n])
                 (merge ids pair (256 + int k), dict_set m pair (256 + int k),
                  v(256 + int k \<mapsto> b0 @ b1)) = Inr locals'"
    unfolding up l by (auto simp: Let_def split: sum.splits option.splits)
  have "stats = get_stats ids None" using gs st by (simp add: returns_pair_counts_def)
  then have pa: "pair \<in> adjacent ids" using py_max_in[OF mx] get_stats_keys[of ids] by auto
  have "train_inv (Suc k) (merge ids pair (256 + int k), dict_set m pair (256 + int k),
                  v(256 + int k \<mapsto> b0 @ b1))"
    using train_step_inv[OF _ pa b0 b1] Suc.prems(1) l by simp
  from Suc.hyps(1)[OF d this rest] show ?case using kn by (simp add: max_def)
qed

lemma train_with_inv:
  assumes gs: "returns_pair_counts gs"
    and t: "train_with gs self text vocab_size = (Inr (), self')"
  shows "map snd (merges self') = merge_ids (length (merges self'))
       \<and> vocab_merges (merges self') base_vocab = Inr (vocab self')
       \<and> special_tokens self' = special_tokens self
       \<and> int (length (merges self')) = vocab_size - 256"
proof -
  from t obtain bs :: bytes and ids m v where vs: "256 \<le> vocab_size"
    and r: "train_loop_with gs (map int [0 ..< nat (vocab_size - 256)])
              (map uint bs, [], base_vocab) = Inr (ids, m, v)"
    and s': "self' = self\<lparr> merges := m, vocab := v \<rparr>"
    by (auto simp: train_with_def Let_def split: if_splits sum.splits prod.splits)
  have "uint w < 256" for w :: byte
    using uint_lt2p[of w] by simp
  then have i0: "train_inv 0 (map uint bs, [], base_vocab)"
    by (auto simp: train_inv_def merge_ids_def)
  from train_loop_inv[OF gs i0 r] have "train_inv (nat (vocab_size - 256)) (ids, m, v)"
    by simp
  then show ?thesis using s' vs by (simp add: train_inv_def)
qed

lemma loaded_merges:
  assumes "load self model_file content = (Inr (), self')"
  shows "\<exists>ps. map parse_pair (merge_lines content) = map Inr ps
      \<and> merges self' = foldl (\<lambda>d (p, j). dict_set d p j) [] (zip ps (merge_ids (length ps)))"
proof -
  from load_success[OF assms] obtain n sp idx f4 m v where
    n: "py_int (strip (fst (readline (tl (tl (file_lines content)))))) = Inr n"
    and rs: "read_special_tokens (nat n) (tl (tl (tl (file_lines content)))) [] (IntV 256)
             = Inr (sp, idx, f4)"
    and rm: "read_merges f4 idx [] = Inr m"
    and s': "merges self' = m"
    by auto
  from read_special_tokens_rest[OF rs] have
    f4: "f4 = drop (nat n) (tl (tl (tl (file_lines content))))"
    and idx: "nat n = 0 \<longrightarrow> idx = IntV 256" "0 < nat n \<longrightarrow> (\<exists>s. idx = StrV s)"
    by auto
  have ml: "merge_lines content = f4"
    using n f4 by (simp add: merge_lines_def Let_def drop_header)
  show ?thesis
  proof (cases "nat n = 0")
    case True
    with idx rm have "read_merges f4 (IntV 256) [] = Inr m" by simp
    from read_merges_int[OF this] show ?thesis
      using ml s' by (simp add: merge_ids_def)
  next
    case False
    with idx obtain s where "idx = StrV s" by auto
    with rm have "f4 = []" "m = []" using read_merges_str by auto
    then show ?thesis using ml s' by (simp add: merge_ids_def)
  qed
qed

text \<open>
  Claim C2, as the code has it. \<open>load\<close> gives the id 256 + k to the pair of the
  k-th merge line (counting from 0) by \<open>merges[(idx1, idx2)] = idx\<close>: a pair that is
  on two merge lines keeps its first place in the table and takes the later id. So
  the claim holds of every state that a successful \<open>load\<close> produces from a model file
  whose merge lines give pairwise different pairs. It holds of every state that
  \<open>train\<close> produces, whatever the call of \<open>get_stats\<close> in its loop does, as long as
  a call that returns, returns the pair counts of the sequence: iteration \<open>i\<close> selects
  a pair that is not yet in the table and gives it the id 256 + i. In both cases the
  ids of the merge table in the order of its entries are 256, 257, ... without a
  gap: the k-th entry added has the id 256 + k - 1.
\<close>

theorem merge_ids_gap_free:
  assumes "(load self model_file content = (Inr (), self')
              \<and> distinct (map parse_pair (merge_lines content)))
           \<or> (train_with stats_call self text vocab_size = (Inr (), self')
              \<and> returns_pair_counts stats_call)
           \<or> train self text vocab_size = (Inr (), self')"
  shows "map snd (merges self') = merge_ids (length (merges self'))"
  using assms
proof (elim disjE)
  assume a: "load self model_file content = (Inr (), self')
               \<and> distinct (map parse_pair (merge_lines content))"
  from loaded_merges[of self model_file content self'] a obtain ps where
    ps: "map parse_pair (merge_lines content) = map Inr ps"
    and m: "merges self' = foldl (\<lambda>d (p, j). dict_set d p j) [] (zip ps (merge_ids (length ps)))"
    by blast
  have "distinct (map Inr ps :: (exn + pair) list)" using a ps by simp
  then have d: "distinct ps" by (simp add: distinct_map)
  have "merges self' = zip ps (merge_ids (length ps))"
    using foldl_dict_set_fresh[OF d, of "[]" "merge_ids (length ps)"] m
    by (simp add: merge_ids_def)
  then show ?thesis by (simp add: merge_ids_def)
next
  assume "train_with stats_call self text vocab_size = (Inr (), self')
            \<and> returns_pair_counts stats_call"
  then show ?thesis using train_with_inv[of stats_call self "text" vocab_size self'] by simp
next
  assume "train self text vocab_size = (Inr (), self')"
  then show ?thesis
    using train_with_inv[OF source_call_returns_pair_counts, of self "text" vocab_size self']
    by (simp add: train_is_with)
qed

theorem merge_ids_gap_free_witness:
  "load tokenizer_init (py ''bpe.model'')
      (py ''bpe v1.0'' @ [10, 10] @ py ''0'' @ [10] @ py ''97 98'' @ [10] @ py ''256 99'' @ [10])
     = (Inr (), tokenizer_init\<lparr> merges := [((97, 98), 256), ((256, 99), 257)],
                               vocab := base_vocab(256 \<mapsto> [97, 98], 257 \<mapsto> [97, 98, 99]) \<rparr>)
   \<and> distinct (map parse_pair (merge_lines
         (py ''bpe v1.0'' @ [10, 10] @ py ''0'' @ [10] @ py ''97 98'' @ [10] @ py ''256 99'' @ [10])))
   \<and> map snd [((97, 98), 256), ((256, 99), 257)] = merge_ids 2
   \<and> train_with (\<lambda>ids. Inr (get_stats ids None)) tokenizer_init (py ''aaabdaaabac'') 259
     = (Inr (), tokenizer_init\<lparr> merges := [((97, 97), 256), ((256, 97), 257), ((257, 98), 258)],
          vocab := base_vocab(256 \<mapsto> [97, 97], 257 \<mapsto> [97, 97, 97],
                              258 \<mapsto> [97, 97, 97, 98]) \<rparr>)
   \<and> returns_pair_counts (\<lambda>ids. Inr (get_stats ids None))
   \<and> map snd [((97, 97), 256), ((256, 97), 257), ((257, 98), 258)] = merge_ids 3"
proof -
  let ?c = "py ''bpe v1.0'' @ [10, 10] @ py ''0'' @ [10] @ py ''97 98'' @ [10] @ py ''256 99'' @ [10]"
  let ?s = "tokenizer_init\<lparr> merges := [((97, 98), 256), ((256, 99), 257)],
                               vocab := base_vocab(256 \<mapsto> [97, 98], 257 \<mapsto> [97, 98, 99]) \<rparr>"
  let ?t = "tokenizer_init\<lparr> merges := [((97, 97), 256), ((256, 97), 257), ((257, 98), 258)],
          vocab := base_vocab(256 \<mapsto> [97, 97], 257 \<mapsto> [97, 97, 97],
                              258 \<mapsto> [97, 97, 97, 98]) \<rparr>"
  have l: "load tokenizer_init (py ''bpe.model'') ?c = (Inr (), ?s)"
    by (simp add: load_def text_eval tokenizer_init_def build_vocab_def base_vocab_def)
  have d: "distinct (map parse_pair (merge_lines ?c))"
    by (simp add: merge_lines_def text_eval)
  have t: "train_with (\<lambda>ids. Inr (get_stats ids None)) tokenizer_init (py ''aaabdaaabac'') 259
           = (Inr (), ?t)"
    by (simp add: train_with_def py_simps utf8_char_def upt_rec get_stats_def py_max_def
        merge_scan base_vocab_def)
  have r: "returns_pair_counts (\<lambda>ids. Inr (get_stats ids None))"
    by (simp add: returns_pair_counts_def)
  show ?thesis
    using l d t r
      merge_ids_gap_free [of tokenizer_init "py ''bpe.model''" ?c ?s]
      merge_ids_gap_free [of tokenizer_init _ _ ?t "\<lambda>ids. Inr (get_stats ids None)"
        "py ''aaabdaaabac''" 259]
    by (simp add: merge_ids_def upt_rec)
qed

text \<open>
  A model file whose merge lines are \<open>1 2\<close>, \<open>3 4\<close>, \<open>1 2\<close> loads, and the merge
  table is then (1, 2) with the id 258 followed by (3, 4) with the id 257.
\<close>

theorem load_repeated_pair_ids:
  "fst (load tokenizer_init (py ''bpe.model'')
      (py ''bpe v1.0'' @ [10, 10] @ py ''0'' @ [10] @ py ''1 2'' @ [10] @ py ''3 4'' @ [10]
       @ py ''1 2'' @ [10])) = Inr ()
   \<and> merges (snd (load tokenizer_init (py ''bpe.model'')
      (py ''bpe v1.0'' @ [10, 10] @ py ''0'' @ [10] @ py ''1 2'' @ [10] @ py ''3 4'' @ [10]
       @ py ''1 2'' @ [10]))) = [((1, 2), 258), ((3, 4), 257)]"
  by (simp add: load_def text_eval tokenizer_init_def build_vocab_def base_vocab_def)


section \<open>The table \<open>vocab\<close> and \<open>_build_vocab\<close>\<close>

lemma build_vocab_init: "build_vocab tokenizer_init = Inr (vocab tokenizer_init)"
  by (simp add: build_vocab_def tokenizer_init_def)

lemma build_vocab_cong:
  "merges a = merges b \<Longrightarrow> special_tokens a = special_tokens b \<Longrightarrow> build_vocab a = build_vocab b"
  by (simp add: build_vocab_def split: sum.splits)

lemma vocab_specials_other:
  "vocab_specials sp v = Inr v' \<Longrightarrow> idx \<notin> snd ` set sp \<Longrightarrow> v' idx = v idx"
  by (induction sp arbitrary: v) (auto split: sum.splits)

lemma vocab_specials_entry:
  "vocab_specials sp v = Inr v' \<Longrightarrow> distinct (map snd sp) \<Longrightarrow> (name, idx) \<in> set sp
   \<Longrightarrow> \<exists>b. utf8_encode name = Inr b \<and> v' idx = Some b"
proof (induction sp arbitrary: v)
  case Nil
  then show ?case by simp
next
  case (Cons e sp)
  obtain name' idx' where e: "e = (name', idx')" by (cases e)
  from Cons.prems(1) e obtain b where b: "utf8_encode name' = Inr b"
    and r: "vocab_specials sp (v(idx' \<mapsto> b)) = Inr v'"
    by (auto split: sum.splits)
  show ?case
  proof (cases "(name, idx) \<in> set sp")
    case True
    then show ?thesis using Cons.IH[OF r] Cons.prems(2) by simp
  next
    case False
    then have eq: "name = name'" "idx = idx'" using Cons.prems(3) e by auto
    have "idx' \<notin> snd ` set sp" using Cons.prems(2) e by (auto simp: image_iff)
    from vocab_specials_other[OF r this] show ?thesis using b eq by simp
  qed
qed

text \<open>
  Claim C4, as the code has it. After construction and after a successful \<open>load\<close>,
  \<open>_build_vocab\<close> returns the table the tokenizer holds. \<open>train\<close> builds its table
  from the bytes and the merges and leaves \<open>special_tokens\<close> as it was: whatever the
  call of \<open>get_stats\<close> in its loop does, as long as a call that returns, returns the
  pair counts of the sequence, the table held after \<open>train\<close> is what the first loop
  of \<open>_build_vocab\<close> makes of the merge table, so that \<open>_build_vocab\<close> returns the
  table held with the special tokens written over it; that is the table held when
  the tokenizer has no special tokens. Whenever the table held is the one
  \<open>_build_vocab\<close> returns and no two special tokens have the same id, every
  special-token entry (name, id) has \<open>vocab[id]\<close> equal to the UTF-8 bytes of the
  name.
\<close>

theorem vocab_derivable:
  "build_vocab tokenizer_init = Inr (vocab tokenizer_init)
   \<and> (load self model_file content = (Inr (), self') \<longrightarrow> build_vocab self' = Inr (vocab self'))
   \<and> ((train_with stats_call self text vocab_size = (Inr (), self')
          \<and> returns_pair_counts stats_call)
        \<or> train self text vocab_size = (Inr (), self')
        \<longrightarrow> vocab_merges (merges self') base_vocab = Inr (vocab self')
          \<and> build_vocab self' = vocab_specials (special_tokens self) (vocab self')
          \<and> (special_tokens self = [] \<longrightarrow> build_vocab self' = Inr (vocab self')))
   \<and> (build_vocab self' = Inr (vocab self') \<and> distinct (map snd (special_tokens self'))
        \<longrightarrow> (\<forall>name idx. (name, idx) \<in> set (special_tokens self')
               \<longrightarrow> (\<exists>b. utf8_encode name = Inr b \<and> vocab self' idx = Some b)))"
proof (intro conjI impI allI)
  show "build_vocab tokenizer_init = Inr (vocab tokenizer_init)"
    by (rule build_vocab_init)
next
  assume "load self model_file content = (Inr (), self')"
  from load_success[OF this] obtain p m sp v where
    b: "build_vocab (self\<lparr> patterns := p, merges := m, special_tokens := sp \<rparr>) = Inr v"
    and s': "self' = self\<lparr> patterns := p, merges := m, special_tokens := sp, vocab := v \<rparr>"
    by blast
  have "build_vocab self' = build_vocab (self\<lparr> patterns := p, merges := m, special_tokens := sp \<rparr>)"
    by (rule build_vocab_cong) (simp_all add: s')
  then show "build_vocab self' = Inr (vocab self')"
    using b s' by simp
next
  assume a: "(train_with stats_call self text vocab_size = (Inr (), self')
          \<and> returns_pair_counts stats_call)
        \<or> train self text vocab_size = (Inr (), self')"
  then have i: "vocab_merges (merges self') base_vocab = Inr (vocab self')
      \<and> special_tokens self' = special_tokens self"
    using train_with_inv[of stats_call self "text" vocab_size self']
      train_with_inv[OF source_call_returns_pair_counts, of self "text" vocab_size self']
    by (auto simp: train_is_with)
  then show "vocab_merges (merges self') base_vocab = Inr (vocab self')" by simp
  from i show b: "build_vocab self' = vocab_specials (special_tokens self) (vocab self')"
    by (simp add: build_vocab_def)
  assume "special_tokens self = []"
  then show "build_vocab self' = Inr (vocab self')" using b by simp
next
  fix name idx
  assume a: "build_vocab self' = Inr (vocab self') \<and> distinct (map snd (special_tokens self'))"
    and m: "(name, idx) \<in> set (special_tokens self')"
  from a obtain v where "vocab_specials (special_tokens self') v = Inr (vocab self')"
    by (auto simp: build_vocab_def split: sum.splits)
  from vocab_specials_entry[OF this _ m] a
  show "\<exists>b. utf8_encode name = Inr b \<and> vocab self' idx = Some b" by simp
qed

theorem vocab_derivable_witness:
  "load tokenizer_init (py ''bpe.model'') (py ''bpe v1.0'' @ [10, 10] @ py ''1'' @ [10] @ py ''<e> 300'' @ [10])
     = (Inr (), tokenizer_init\<lparr> special_tokens := [(py ''<e>'', 300)],
                               vocab := base_vocab(300 \<mapsto> [60, 101, 62]) \<rparr>)
   \<and> build_vocab (tokenizer_init\<lparr> special_tokens := [(py ''<e>'', 300)],
                               vocab := base_vocab(300 \<mapsto> [60, 101, 62]) \<rparr>)
       = Inr (base_vocab(300 \<mapsto> [60, 101, 62]))
   \<and> utf8_encode (py ''<e>'') = Inr [60, 101, 62]
   \<and> train_with (\<lambda>ids. Inr (get_stats ids None)) tokenizer_init (py ''aaabdaaabac'') 259
     = (Inr (), tokenizer_init\<lparr> merges := [((97, 97), 256), ((256, 97), 257), ((257, 98), 258)],
          vocab := base_vocab(256 \<mapsto> [97, 97], 257 \<mapsto> [97, 97, 97],
                              258 \<mapsto> [97, 97, 97, 98]) \<rparr>)
   \<and> returns_pair_counts (\<lambda>ids. Inr (get_stats ids None))
   \<and> special_tokens tokenizer_init = []
   \<and> build_vocab (tokenizer_init\<lparr> merges := [((97, 97), 256), ((256, 97), 257), ((257, 98), 258)],
          vocab := base_vocab(256 \<mapsto> [97, 97], 257 \<mapsto> [97, 97, 97],
                              258 \<mapsto> [97, 97, 97, 98]) \<rparr>)
       = Inr (base_vocab(256 \<mapsto> [97, 97], 257 \<mapsto> [97, 97, 97], 258 \<mapsto> [97, 97, 97, 98]))"
proof -
  let ?c = "py ''bpe v1.0'' @ [10, 10] @ py ''1'' @ [10] @ py ''<e> 300'' @ [10]"
  let ?s = "tokenizer_init\<lparr> special_tokens := [(py ''<e>'', 300)],
                               vocab := base_vocab(300 \<mapsto> [60, 101, 62]) \<rparr>"
  let ?t = "tokenizer_init\<lparr> merges := [((97, 97), 256), ((256, 97), 257), ((257, 98), 258)],
          vocab := base_vocab(256 \<mapsto> [97, 97], 257 \<mapsto> [97, 97, 97],
                              258 \<mapsto> [97, 97, 97, 98]) \<rparr>"
  have l: "load tokenizer_init (py ''bpe.model'') ?c = (Inr (), ?s)"
    by (simp add: load_def text_eval tokenizer_init_def build_vocab_def utf8_char_def)
  have t: "train_with (\<lambda>ids. Inr (get_stats ids None)) tokenizer_init (py ''aaabdaaabac'') 259
           = (Inr (), ?t)"
    by (simp add: train_with_def py_simps utf8_char_def upt_rec get_stats_def py_max_def
        merge_scan base_vocab_def)
  have r: "returns_pair_counts (\<lambda>ids. Inr (get_stats ids None))"
    by (simp add: returns_pair_counts_def)
  have e: "special_tokens tokenizer_init = []"
    by (simp add: tokenizer_init_def)
  have d: "distinct (map snd (special_tokens ?s))" "(py ''<e>'', 300) \<in> set (special_tokens ?s)"
    by simp_all
  have u: "utf8_encode (py ''<e>'') = Inr [60, 101, 62]"
    by (simp add: py_simps utf8_char_def)
  have vs: "vocab ?s = base_vocab(300 \<mapsto> [60, 101, 62])"
    "vocab ?t = base_vocab(256 \<mapsto> [97, 97], 257 \<mapsto> [97, 97, 97], 258 \<mapsto> [97, 97, 97, 98])"
    by simp_all
  have 1: "build_vocab ?s = Inr (vocab ?s)"
    using l vocab_derivable [of tokenizer_init "py ''bpe.model''" ?c ?s] by blast
  have 2: "build_vocab ?t = Inr (vocab ?t)"
    using t r e
      vocab_derivable [of tokenizer_init _ _ ?t "\<lambda>ids. Inr (get_stats ids None)"
        "py ''aaabdaaabac''" 259]
    by blast
  show ?thesis
    using l t r e u 1 2 unfolding vs by blast
qed

text \<open>
  After a \<open>load\<close> that brings the special token \<open><e>\<close> with the id 300, \<open>train\<close>
  with \<open>vocab_size\<close> 256 returns and leaves a table without the id 300, which
  \<open>_build_vocab\<close> would add. And a model file that gives the id 300 to the special
  tokens \<open>a\<close> and \<open>b\<close> loads with \<open>vocab[300]\<close> equal to the bytes of \<open>b\<close>.
\<close>

theorem train_forgets_special_tokens:
  "load tokenizer_init (py ''bpe.model'') (py ''bpe v1.0'' @ [10, 10] @ py ''1'' @ [10] @ py ''<e> 300'' @ [10])
     = (Inr (), tokenizer_init\<lparr> special_tokens := [(py ''<e>'', 300)],
                               vocab := base_vocab(300 \<mapsto> [60, 101, 62]) \<rparr>)
   \<and> train (tokenizer_init\<lparr> special_tokens := [(py ''<e>'', 300)],
                               vocab := base_vocab(300 \<mapsto> [60, 101, 62]) \<rparr>) [] 256
     = (Inr (), tokenizer_init\<lparr> special_tokens := [(py ''<e>'', 300)] \<rparr>)
   \<and> build_vocab (tokenizer_init\<lparr> special_tokens := [(py ''<e>'', 300)] \<rparr>)
       \<noteq> Inr (vocab (tokenizer_init\<lparr> special_tokens := [(py ''<e>'', 300)] \<rparr>))
   \<and> vocab (tokenizer_init\<lparr> special_tokens := [(py ''<e>'', 300)] \<rparr>) 300 = None
   \<and> load tokenizer_init (py ''bpe.model'')
        (py ''bpe v1.0'' @ [10, 10] @ py ''2'' @ [10] @ py ''a 300'' @ [10] @ py ''b 300'' @ [10])
     = (Inr (), tokenizer_init\<lparr> special_tokens := [(py ''a'', 300), (py ''b'', 300)],
                               vocab := base_vocab(300 \<mapsto> [98]) \<rparr>)
   \<and> utf8_encode (py ''a'') = Inr [97]"
proof -
  have ne: "base_vocab(300 \<mapsto> b) \<noteq> base_vocab" for b
  proof
    assume "base_vocab(300 \<mapsto> b) = base_vocab"
    then have "(base_vocab(300 \<mapsto> b)) 300 = base_vocab 300" by simp
    then show False by (simp add: base_vocab_def)
  qed
  have 1: "load tokenizer_init (py ''bpe.model'')
      (py ''bpe v1.0'' @ [10, 10] @ py ''1'' @ [10] @ py ''<e> 300'' @ [10])
     = (Inr (), tokenizer_init\<lparr> special_tokens := [(py ''<e>'', 300)],
                               vocab := base_vocab(300 \<mapsto> [60, 101, 62]) \<rparr>)"
    by (simp add: load_def text_eval tokenizer_init_def build_vocab_def utf8_char_def)
  have 2: "train (tokenizer_init\<lparr> special_tokens := [(py ''<e>'', 300)],
                               vocab := base_vocab(300 \<mapsto> [60, 101, 62]) \<rparr>) [] 256
     = (Inr (), tokenizer_init\<lparr> special_tokens := [(py ''<e>'', 300)] \<rparr>)"
    by (simp add: train_def tokenizer_init_def)
  have 3: "build_vocab (tokenizer_init\<lparr> special_tokens := [(py ''<e>'', 300)] \<rparr>)
       \<noteq> Inr (vocab (tokenizer_init\<lparr> special_tokens := [(py ''<e>'', 300)] \<rparr>))"
    using ne by (simp add: build_vocab_def tokenizer_init_def py_simps utf8_char_def)
  have 4: "vocab (tokenizer_init\<lparr> special_tokens := [(py ''<e>'', 300)] \<rparr>) 300 = None"
    by (simp add: tokenizer_init_def base_vocab_def)
  have 5: "load tokenizer_init (py ''bpe.model'')
        (py ''bpe v1.0'' @ [10, 10] @ py ''2'' @ [10] @ py ''a 300'' @ [10] @ py ''b 300'' @ [10])
     = (Inr (), tokenizer_init\<lparr> special_tokens := [(py ''a'', 300), (py ''b'', 300)],
                               vocab := base_vocab(300 \<mapsto> [98]) \<rparr>)"
    by (simp add: load_def text_eval tokenizer_init_def build_vocab_def utf8_char_def
        numeral_2_eq_2)
  have 6: "utf8_encode (py ''a'') = Inr [97]"
    by (simp add: py_simps utf8_char_def)
  show ?thesis using 1 2 3 4 5 6 by blast
qed


end
